theory Spec2Isabelle
  imports Main "HOL-Library.FSet" "HOL-Library.Sublist"
begin

section \<open>The hex rendering of a catalog colour (App.tsx, \<open>rgbToHex\<close>)\<close>

text \<open>
  \<open>Number.prototype.toString(16)\<close> on an integer: lower-case hexadecimal digits without
  leading zeros, a minus sign in front of the digits of a negative number. The channels of
  a \<open>/pixelate\<close> response are JSON numbers; they are modelled as unbounded integers.
\<close>

definition hexDigit :: "nat \<Rightarrow> char" where
  "hexDigit d = ''0123456789abcdef'' ! d"

fun natToString16 :: "nat \<Rightarrow> string" where
  "natToString16 n =
     (if n < 16 then [hexDigit n] else natToString16 (n div 16) @ [hexDigit (n mod 16)])"

declare natToString16.simps [simp del]

definition toString16 :: "int \<Rightarrow> string" where
  "toString16 x = (if x < 0 then CHR ''-'' # natToString16 (nat (- x)) else natToString16 (nat x))"

text \<open>The body of the arrow function mapped over \<open>[r, g, b]\<close>.\<close>

definition channelHex :: "int \<Rightarrow> string" where
  "channelHex x = (let hex = toString16 x in if length hex = 1 then CHR ''0'' # hex else hex)"

definition rgbToHex :: "int \<Rightarrow> int \<Rightarrow> int \<Rightarrow> string" where
  "rgbToHex r g b = ''#'' @ concat (map channelHex [r, g, b])"


section \<open>The \<open>/pixelate\<close> response and its transformation (App.tsx, \<open>handlePixelate\<close>)\<close>

text \<open>
  One entry \<open>p\<close> of \<open>data.used_palette\<close>: \<open>p.id\<close> and the array \<open>p.rgb\<close>.
\<close>

record palette_entry =
  id_p :: string
  rgb :: "int list"

text \<open>
  The parsed body \<open>data\<close>. \<open>used_palette\<close> is \<open>None\<close> when \<open>Array.isArray\<close> fails on it;
  \<open>grid_data\<close> is \<open>None\<close> when the field is absent.
\<close>

record pixelate_response =
  used_palette :: "palette_entry list option"
  grid_data :: "string list list option"
  data_width :: nat
  data_height :: nat
  data_preview :: string

record pixel_result =
  gridData :: "string list list"
  usedPalette :: "string list"
  width :: nat
  height :: nat
  preview :: string

text \<open>
  Texts of the messages the application shows or throws. The three fixed templates of
  \<open>handlePixelate\<close> are constructors; any other text is a \<open>Literal\<close>.
\<close>

datatype msg_text =
    Literal string
  | StatusFailure nat string
  | ConnectFailure string
  | DefaultFailure

text \<open>What a \<open>catch\<close> clause can receive: a \<open>TypeError\<close>, another \<open>Error\<close>, or a value that
  is no \<open>Error\<close> at all.\<close>

datatype thrown = TypeErr msg_text | Err msg_text | NonError

text \<open>Reading a property of \<open>undefined\<close> throws a \<open>TypeError\<close> with a text of the engine's.\<close>

definition undefinedAccess :: thrown where
  "undefinedAccess = TypeErr (Literal ''Cannot read properties of undefined'')"

text \<open>
  The call \<open>rgbToHex(p.rgb[0], p.rgb[1], p.rgb[2])\<close>: an index beyond the array reads
  \<open>undefined\<close>, and \<open>rgbToHex\<close> then throws at \<open>x.toString(16)\<close>.
\<close>

definition entryHex :: "palette_entry \<Rightarrow> thrown + string" where
  "entryHex p =
     (case rgb p of
        r # g # b # _ \<Rightarrow> Inr (rgbToHex r g b)
      | _ \<Rightarrow> Inl undefinedAccess)"

text \<open>
  The \<open>forEach\<close> over \<open>data.used_palette\<close>, threading \<open>paletteMap\<close> (\<open>set\<close> overwrites
  an existing key) and \<open>paletteHexList\<close> (\<open>push\<close> appends).
\<close>

fun paletteLoop ::
  "palette_entry list \<Rightarrow> (string \<rightharpoonup> string) \<Rightarrow> string list
     \<Rightarrow> thrown + ((string \<rightharpoonup> string) \<times> string list)" where
  "paletteLoop [] paletteMap paletteHexList = Inr (paletteMap, paletteHexList)"
| "paletteLoop (p # ps) paletteMap paletteHexList =
     (case entryHex p of
        Inl e \<Rightarrow> Inl e
      | Inr hex \<Rightarrow> paletteLoop ps (paletteMap(id_p p \<mapsto> hex)) (paletteHexList @ [hex]))"

text \<open>
  \<open>paletteMap.get(id) || '#000000'\<close>, in two steps. The left operand of \<open>||\<close> is the value
  of the expression when it is truthy: a string found in the map that is not empty.
  Otherwise (a missing key, or the empty string) the right operand, the fallback, is.
\<close>

datatype cell_source = FromPalette string | Fallback

definition cellLookup :: "(string \<rightharpoonup> string) \<Rightarrow> string \<Rightarrow> cell_source" where
  "cellLookup paletteMap i =
     (case paletteMap i of
        None \<Rightarrow> Fallback
      | Some hex \<Rightarrow> if hex = [] then Fallback else FromPalette hex)"

definition cellHex :: "(string \<rightharpoonup> string) \<Rightarrow> string \<Rightarrow> string" where
  "cellHex paletteMap i =
     (case cellLookup paletteMap i of
        FromPalette hex \<Rightarrow> hex
      | Fallback \<Rightarrow> ''#000000'')"

text \<open>Lines 419 to 428: the map and the list, empty when \<open>used_palette\<close> is no array.\<close>

definition buildPalette ::
  "pixelate_response \<Rightarrow> thrown + ((string \<rightharpoonup> string) \<times> string list)" where
  "buildPalette d =
     (case used_palette d of
        None \<Rightarrow> Inr (Map.empty, [])
      | Some ps \<Rightarrow> paletteLoop ps Map.empty [])"

text \<open>Lines 419 to 440: the object passed to \<open>setPixelResult\<close>, or what was thrown before.\<close>

definition buildPixelResult :: "pixelate_response \<Rightarrow> thrown + pixel_result" where
  "buildPixelResult d =
     (case buildPalette d of
        Inl e \<Rightarrow> Inl e
      | Inr (paletteMap, paletteHexList) \<Rightarrow>
          (case grid_data d of
             None \<Rightarrow> Inl undefinedAccess
           | Some rows \<Rightarrow>
               Inr \<lparr> gridData = map (map (cellHex paletteMap)) rows,
                     usedPalette = paletteHexList,
                     width = data_width d,
                     height = data_height d,
                     preview = data_preview d \<rparr>))"


text \<open>
  The entry a key of \<open>paletteMap\<close> ends up bound to: \<open>Map.set\<close> overwrites, so it is the
  last entry of \<open>used_palette\<close> that carries the id.
\<close>

fun lastEntry :: "palette_entry list \<Rightarrow> string \<Rightarrow> palette_entry option" where
  "lastEntry [] i = None"
| "lastEntry (p # ps) i =
     (case lastEntry ps i of
        Some q \<Rightarrow> Some q
      | None \<Rightarrow> if id_p p = i then Some p else None)"

definition byte :: "int \<Rightarrow> bool" where
  "byte x \<longleftrightarrow> 0 \<le> x \<and> x < 256"


section \<open>The viewer (PixelViewer.tsx)\<close>

text \<open>
  The props of \<open>PixelViewer\<close> are the fields of the \<open>pixelResult\<close> that \<open>App\<close> passes on,
  so a \<open>pixel_result\<close> stands for them. The component's own state:
\<close>

record viewer_state =
  visibleColors :: "string fset"
  scale :: nat
  showGrid :: bool
  addPadding :: bool

definition initViewer :: "pixel_result \<Rightarrow> viewer_state" where
  "initViewer props =
     \<lparr> visibleColors = fset_of_list (usedPalette props),
       scale = 10, showGrid = False, addPadding = True \<rparr>"

definition toggleColorVisibility :: "viewer_state \<Rightarrow> string \<Rightarrow> viewer_state" where
  "toggleColorVisibility v color =
     (let newVisible = visibleColors v
      in if color |\<in>| newVisible
         then v\<lparr>visibleColors := newVisible |-| {|color|}\<rparr>
         else v\<lparr>visibleColors := finsert color newVisible\<rparr>)"

definition toggleAllColors :: "pixel_result \<Rightarrow> viewer_state \<Rightarrow> viewer_state" where
  "toggleAllColors props v =
     (if fcard (visibleColors v) = length (usedPalette props)
      then v\<lparr>visibleColors := {||}\<rparr>
      else v\<lparr>visibleColors := fset_of_list (usedPalette props)\<rparr>)"

definition zoomOut :: "viewer_state \<Rightarrow> viewer_state" where
  "zoomOut v = v\<lparr>scale := max 1 (scale v - 1)\<rparr>"

definition zoomIn :: "viewer_state \<Rightarrow> viewer_state" where
  "zoomIn v = v\<lparr>scale := min 50 (scale v + 1)\<rparr>"

text \<open>Lines 57 and 58 of the drawing effect.\<close>

definition canvasWidth :: "pixel_result \<Rightarrow> viewer_state \<Rightarrow> nat" where
  "canvasWidth props v = width props * scale v + (if addPadding v then scale v * 2 else 0)"

definition canvasHeight :: "pixel_result \<Rightarrow> viewer_state \<Rightarrow> nat" where
  "canvasHeight props v = height props * scale v + (if addPadding v then scale v * 2 else 0)"

text \<open>
  Lines 83 to 90: the \<open>fillRect\<close> calls of the paint loop in the order they are made, each
  with the \<open>fillStyle\<close> in force. Coordinates are those passed to \<open>fillRect\<close>, relative to
  the translated origin.
\<close>

datatype draw_op = FillRect string nat nat nat nat

definition paintRow :: "viewer_state \<Rightarrow> nat \<Rightarrow> string list \<Rightarrow> draw_op list" where
  "paintRow v y row =
     concat (map (\<lambda>(x, color).
                    if color |\<in>| visibleColors v
                    then [FillRect color (x * scale v) (y * scale v) (scale v) (scale v)]
                    else [])
                 (enumerate 0 row))"

definition paintGrid :: "pixel_result \<Rightarrow> viewer_state \<Rightarrow> draw_op list" where
  "paintGrid props v =
     concat (map (\<lambda>(y, row). paintRow v y row) (enumerate 0 (gridData props)))"

text \<open>
  \<open>App\<close> renders \<open>PixelViewer\<close> without a key, so the component stays mounted when a new
  result arrives: the initialiser of \<open>useState\<close> (line 23) runs on mount only, and the
  effect of lines 28 to 30 sets \<open>visibleColors\<close> to the new palette.

  \<open>viewerReach props v\<close>: \<open>v\<close> is a state of the viewer that shows \<open>props\<close>, once that
  effect has been applied. Each sidebar row calls \<open>toggleColorVisibility\<close> with its own
  entry of \<open>usedPalette\<close>. A new result keeps \<open>scale\<close>, \<open>showGrid\<close> and \<open>addPadding\<close>.
\<close>

inductive viewerReach :: "pixel_result \<Rightarrow> viewer_state \<Rightarrow> bool" where
  vr_init: "viewerReach props (initViewer props)"
| vr_toggle: "viewerReach props v \<Longrightarrow> color \<in> set (usedPalette props)
     \<Longrightarrow> viewerReach props (toggleColorVisibility v color)"
| vr_toggleAll: "viewerReach props v \<Longrightarrow> viewerReach props (toggleAllColors props v)"
| vr_zoomOut: "viewerReach props v \<Longrightarrow> viewerReach props (zoomOut v)"
| vr_zoomIn: "viewerReach props v \<Longrightarrow> viewerReach props (zoomIn v)"
| vr_grid: "viewerReach props v \<Longrightarrow> viewerReach props (v\<lparr>showGrid := \<not> showGrid v\<rparr>)"
| vr_padding: "viewerReach props v \<Longrightarrow> viewerReach props (v\<lparr>addPadding := \<not> addPadding v\<rparr>)"
| vr_props: "viewerReach props0 v
     \<Longrightarrow> viewerReach props (v\<lparr>visibleColors := fset_of_list (usedPalette props)\<rparr>)"

text \<open>
  The runs of the drawing effect (lines 50 to 113), as the props and the state it reads.
  It runs with every state of the viewer that shows \<open>props\<close>. It also runs once when a new
  result has arrived, in the render that precedes the update of \<open>visibleColors\<close>: then it
  reads the new props and the state left from the result shown before.
\<close>

inductive paintPass :: "pixel_result \<Rightarrow> viewer_state \<Rightarrow> bool" where
  pp_current: "viewerReach props v \<Longrightarrow> paintPass props v"
| pp_stale: "viewerReach props0 v \<Longrightarrow> paintPass props v"


section \<open>The application state and \<open>handlePixelate\<close> (App.tsx)\<close>

text \<open>
  The state variables of \<open>App\<close> that \<open>handlePixelate\<close>, the sliders and the step views read
  or write.
\<close>

record app_state =
  step :: nat
  apiUrl :: string
  originalPreview :: string
  generatedImage :: string
  croppedImagePreview :: string
  pixelResult :: "pixel_result option"
  gridSize :: nat
  tempGridSize :: nat
  maxColors :: nat
  tempMaxColors :: nat
  isLoading :: bool
  error :: "msg_text option"

definition initialApp :: app_state where
  "initialApp =
     \<lparr> step = 1, apiUrl = ''/api'', originalPreview = [], generatedImage = [],
       croppedImagePreview = [], pixelResult = None,
       gridSize = 64, tempGridSize = 64, maxColors = 15, tempMaxColors = 15,
       isLoading = False, error = None \<rparr>"

text \<open>\<open>generatedImage || croppedImagePreview || originalPreview\<close>\<close>

definition sourceImage :: "app_state \<Rightarrow> string" where
  "sourceImage st =
     (if generatedImage st \<noteq> [] then generatedImage st
      else if croppedImagePreview st \<noteq> [] then croppedImagePreview st
      else originalPreview st)"

text \<open>
  What the awaited calls of the \<open>try\<close> block deliver: one of the promises rejects
  (\<open>fetch\<close> of the source, \<open>blob\<close>, \<open>fetch\<close> of \<open>/pixelate\<close>, \<open>json\<close>), the response is not
  \<open>ok\<close> (with its \<open>status\<close> and \<open>statusText\<close>), or the body parses to \<open>data\<close>.
\<close>

datatype pixelate_outcome =
    Rejected thrown
  | NotOk nat string
  | Ok pixelate_response

text \<open>The \<open>try\<close> block up to line 432: what it throws, or the result it builds.\<close>

definition tryBlock :: "pixelate_outcome \<Rightarrow> thrown + pixel_result" where
  "tryBlock out =
     (case out of
        Rejected e \<Rightarrow> Inl e
      | NotOk status statusText \<Rightarrow> Inl (Err (StatusFailure status statusText))
      | Ok d \<Rightarrow> buildPixelResult d)"

text \<open>The \<open>catch\<close> block.\<close>

definition errorMessage :: "app_state \<Rightarrow> thrown \<Rightarrow> msg_text" where
  "errorMessage st err =
     (case err of
        TypeErr m \<Rightarrow> if m = Literal ''Failed to fetch'' then ConnectFailure (apiUrl st) else m
      | Err m \<Rightarrow> m
      | NonError \<Rightarrow> DefaultFailure)"

text \<open>
  \<open>handlePixelate\<close> runs in two parts: up to the first \<open>await\<close>, and from the settling of
  the awaited calls on. Other handlers can run in between, so the second part takes the
  state it finds.
\<close>

definition handlePixelate_begin :: "app_state \<Rightarrow> app_state" where
  "handlePixelate_begin st =
     (if sourceImage st = [] then st else st\<lparr>isLoading := True, error := None\<rparr>)"

definition handlePixelate_settle ::
  "app_state \<Rightarrow> nat \<Rightarrow> nat \<Rightarrow> pixelate_outcome \<Rightarrow> app_state" where
  "handlePixelate_settle st targetGridSize targetMaxColors out =
     (case tryBlock out of
        Inr r \<Rightarrow>
          st\<lparr> pixelResult := Some r,
              gridSize := targetGridSize, tempGridSize := targetGridSize,
              maxColors := targetMaxColors, tempMaxColors := targetMaxColors,
              step := 3, isLoading := False \<rparr>
      | Inl e \<Rightarrow> st\<lparr> error := Some (errorMessage st e), isLoading := False \<rparr>)"

definition handlePixelate ::
  "app_state \<Rightarrow> nat \<Rightarrow> nat \<Rightarrow> pixelate_outcome \<Rightarrow> app_state" where
  "handlePixelate st targetGridSize targetMaxColors out =
     (if sourceImage st = [] then st
      else handlePixelate_settle (handlePixelate_begin st) targetGridSize targetMaxColors out)"

definition handleUpload :: "app_state \<Rightarrow> string \<Rightarrow> app_state" where
  "handleUpload st url =
     st\<lparr> originalPreview := url, croppedImagePreview := [], step := 2, error := None \<rparr>"

definition handleReset :: "app_state \<Rightarrow> app_state" where
  "handleReset st =
     st\<lparr> step := 1, originalPreview := [], generatedImage := [], pixelResult := None,
         error := None, croppedImagePreview := [] \<rparr>"

text \<open>
  The values an \<open>input type="range"\<close> with the given \<open>min\<close>, \<open>max\<close> and \<open>step\<close> can hold:
  the browser keeps \<open>e.target.value\<close> on \<open>min + k * step\<close>, at most \<open>max\<close>.
\<close>

definition sliderValues :: "nat \<Rightarrow> nat \<Rightarrow> nat \<Rightarrow> nat list" where
  "sliderValues lo hi st = map (\<lambda>k. lo + k * st) [0..<Suc ((hi - lo) div st)]"

text \<open>
  The application together with the \<open>(grid_size, max_colors)\<close> pairs of the requests it has
  issued. Events are not restricted to the view that shows their control, a request may
  settle more than once, and \<open>handleGenerate\<close> may leave any image, error and loading flag:
  each of these only adds reachable states.
\<close>

definition issue :: "app_state \<Rightarrow> nat \<times> nat \<Rightarrow> (nat \<times> nat) list \<Rightarrow> (nat \<times> nat) list" where
  "issue st rq issued = (if sourceImage st = [] then issued else issued @ [rq])"

inductive appReach :: "app_state \<Rightarrow> (nat \<times> nat) list \<Rightarrow> bool" where
  ar_init: "appReach initialApp []"
| ar_upload: "appReach st issued \<Longrightarrow> appReach (handleUpload st url) issued"
| ar_reset: "appReach st issued \<Longrightarrow> appReach (handleReset st) issued"
| ar_stepper: "appReach st issued \<Longrightarrow> n \<in> {1, 2} \<Longrightarrow> n < step st
     \<Longrightarrow> appReach (st\<lparr>step := n\<rparr>) issued"
| ar_cropped: "appReach st issued \<Longrightarrow> appReach (st\<lparr>croppedImagePreview := url\<rparr>) issued"
| ar_generate: "appReach st issued
     \<Longrightarrow> appReach (st\<lparr>generatedImage := url, error := e, isLoading := l\<rparr>) issued"
| ar_default: "appReach st issued
     \<Longrightarrow> appReach (handlePixelate_begin st) (issue st (64, 15) issued)"
| ar_density: "appReach st issued \<Longrightarrow> v \<in> set (sliderValues 16 128 8)
     \<Longrightarrow> appReach (st\<lparr>tempGridSize := v\<rparr>) issued"
| ar_densityUp: "appReach st issued
     \<Longrightarrow> appReach (handlePixelate_begin st) (issue st (tempGridSize st, maxColors st) issued)"
| ar_colors: "appReach st issued \<Longrightarrow> v \<in> set (sliderValues 5 30 1)
     \<Longrightarrow> appReach (st\<lparr>tempMaxColors := v\<rparr>) issued"
| ar_colorsUp: "appReach st issued
     \<Longrightarrow> appReach (handlePixelate_begin st) (issue st (gridSize st, tempMaxColors st) issued)"
| ar_settle: "appReach st issued \<Longrightarrow> (g, c) \<in> set issued
     \<Longrightarrow> appReach (handlePixelate_settle st g c out) issued"


section \<open>The uploader (ImageUploader.tsx)\<close>

text \<open>A \<open>File\<close> with its \<open>name\<close> and its MIME \<open>type\<close>.\<close>

record upload_file =
  file_name :: string
  file_type :: string

text \<open>
  \<open>handleDrop\<close>: the new \<open>isDragging\<close> and the calls of \<open>onImageSelect\<close>, in order.
  \<open>e.dataTransfer.files\<close> is \<open>None\<close> when it is null.
\<close>

definition handleDrop :: "bool \<Rightarrow> upload_file list option \<Rightarrow> bool \<times> upload_file list" where
  "handleDrop isDragging files =
     (False,
      case files of
        Some (f # _) \<Rightarrow> if prefix ''image/'' (file_type f) then [f] else []
      | _ \<Rightarrow> [])"

text \<open>The hidden \<open>input\<close> element, \<open>e.target\<close> of the change event.\<close>

record file_input =
  files :: "upload_file list option"
  input_value :: string

text \<open>
  \<open>handleFileSelect\<close>: the element afterwards and the calls of \<open>onImageSelect\<close>. Assigning
  the empty string to the \<open>value\<close> of a file input also empties its list of files.
\<close>

definition handleFileSelect :: "file_input \<Rightarrow> file_input \<times> upload_file list" where
  "handleFileSelect target =
     (target\<lparr>input_value := [], files := Some []\<rparr>,
      case files target of
        Some (f # _) \<Rightarrow> [f]
      | _ \<Rightarrow> [])"



section \<open>Sample inputs\<close>

text \<open>A response whose only palette entry is black, and a two-by-two response with one
  cell (\<open>BG\<close>) whose id is no palette entry.\<close>

definition blackResponse :: pixelate_response where
  "blackResponse =
     \<lparr> used_palette = Some [\<lparr>id_p = ''H7'', rgb = [0, 0, 0]\<rparr>],
       grid_data = Some [[''H7'']],
       data_width = 1, data_height = 1, data_preview = [] \<rparr>"

definition blackResult :: pixel_result where
  "blackResult =
     \<lparr> gridData = [[''#000000'']], usedPalette = [''#000000''],
       width = 1, height = 1, preview = [] \<rparr>"

definition sampleResponse :: pixelate_response where
  "sampleResponse =
     \<lparr> used_palette = Some [\<lparr>id_p = ''A1'', rgb = [255, 0, 16]\<rparr>, \<lparr>id_p = ''B2'', rgb = [7, 128, 200]\<rparr>],
       grid_data = Some [[''A1'', ''BG''], [''B2'', ''A1'']],
       data_width = 2, data_height = 2, data_preview = ''data:image/png;base64,'' \<rparr>"

definition sampleResult :: pixel_result where
  "sampleResult =
     \<lparr> gridData = [[''#ff0010'', ''#000000''], [''#0780c8'', ''#ff0010'']],
       usedPalette = [''#ff0010'', ''#0780c8''],
       width = 2, height = 2, preview = ''data:image/png;base64,'' \<rparr>"


text \<open>A response with two palette entries of different ids and the same RGB, and the
  result built from it.\<close>

definition twinResponse :: pixelate_response where
  "twinResponse =
     \<lparr> used_palette = Some [\<lparr>id_p = ''A1'', rgb = [255, 255, 255]\<rparr>, \<lparr>id_p = ''A2'', rgb = [255, 255, 255]\<rparr>],
       grid_data = Some [[''A1'', ''A2'']],
       data_width = 2, data_height = 1, data_preview = [] \<rparr>"

definition twinResult :: pixel_result where
  "twinResult =
     \<lparr> gridData = [[''#ffffff'', ''#ffffff'']], usedPalette = [''#ffffff'', ''#ffffff''],
       width = 2, height = 1, preview = [] \<rparr>"


text \<open>An application state after an upload, and one after a pixelation of the upload with
  the sample response and a move of the density slider to 128, released.\<close>

definition uploadedApp :: app_state where
  "uploadedApp = handleUpload initialApp ''blob:1''"

definition sampleApp :: app_state where
  "sampleApp =
     handlePixelate_begin
       ((handlePixelate_settle (handlePixelate_begin (handleUpload initialApp ''blob:1''))
           64 15 (Ok sampleResponse))\<lparr>tempGridSize := 128\<rparr>)"

text \<open>Two files, an image and a document.\<close>

definition pngFile :: upload_file where
  "pngFile = \<lparr> file_name = ''cat.png'', file_type = ''image/png'' \<rparr>"

definition pdfFile :: upload_file where
  "pdfFile = \<lparr> file_name = ''notes.pdf'', file_type = ''application/pdf'' \<rparr>"


section \<open>The parameter ranges as a predicate on states\<close>

definition gridOk :: "nat \<Rightarrow> bool" where
  "gridOk g \<longleftrightarrow> 16 \<le> g \<and> g \<le> 128"

definition colorsOk :: "nat \<Rightarrow> bool" where
  "colorsOk c \<longleftrightarrow> 5 \<le> c \<and> c \<le> 30"

definition paramsOk :: "app_state \<Rightarrow> (nat \<times> nat) list \<Rightarrow> bool" where
  "paramsOk st issued \<longleftrightarrow>
     gridOk (gridSize st) \<and> gridOk (tempGridSize st) \<and>
     colorsOk (maxColors st) \<and> colorsOk (tempMaxColors st) \<and>
     list_all (\<lambda>(g, c). gridOk g \<and> colorsOk c) issued"


section \<open>Facts about \<open>rgbToHex\<close>\<close>

lemma hexDigit_inj: "a < 16 \<Longrightarrow> b < 16 \<Longrightarrow> hexDigit a = hexDigit b \<Longrightarrow> a = b"
proof -
  have enum: "\<And>n::nat. n < 16 \<Longrightarrow> n \<in> set [0,1,2,3,4,5,6,7,8,9,10,11,12,13,14,15]"
    by (simp) arith
  assume "a < 16" "b < 16" "hexDigit a = hexDigit b"
  with enum[of a] enum[of b] show ?thesis
    by (auto simp: hexDigit_def)
qed

lemma hexDigit_zero: "d < 16 \<Longrightarrow> hexDigit d = CHR ''0'' \<longleftrightarrow> d = 0"
  using hexDigit_inj[of d 0] by (auto simp: hexDigit_def)

lemma hexDigit_not_minus: "d < 16 \<Longrightarrow> hexDigit d \<noteq> CHR ''-''"
proof -
  have enum: "\<And>n::nat. n < 16 \<Longrightarrow> n \<in> set [0,1,2,3,4,5,6,7,8,9,10,11,12,13,14,15]"
    by (simp) arith
  assume "d < 16"
  with enum[of d] show ?thesis
    by (auto simp: hexDigit_def)
qed

lemma natToString16_nonempty: "natToString16 n \<noteq> []"
  by (subst natToString16.simps) simp

lemma length_natToString16: "Suc 0 \<le> length (natToString16 n)"
  using natToString16_nonempty[of n] by (cases "natToString16 n") simp_all

lemma natToString16_small: "n < 16 \<Longrightarrow> natToString16 n = [hexDigit n]"
  by (subst natToString16.simps) simp

lemma natToString16_byte: "16 \<le> n \<Longrightarrow> n < 256 \<Longrightarrow> natToString16 n = [hexDigit (n div 16), hexDigit (n mod 16)]"
  by (subst natToString16.simps) (simp add: natToString16_small)

lemma natToString16_long: "256 \<le> n \<Longrightarrow> 3 \<le> length (natToString16 n)"
proof -
  assume n: "256 \<le> n"
  then have "16 \<le> n div 16" by simp
  then have "natToString16 (n div 16) = natToString16 (n div 16 div 16) @ [hexDigit (n div 16 mod 16)]"
    by (subst natToString16.simps) simp
  moreover have "natToString16 n = natToString16 (n div 16) @ [hexDigit (n mod 16)]"
    using n by (subst natToString16.simps) simp
  ultimately have "length (natToString16 n) = length (natToString16 (n div 16 div 16)) + 2"
    by simp
  then show ?thesis using length_natToString16[of "n div 16 div 16"] by linarith
qed

lemma channelHex_byte: "0 \<le> x \<Longrightarrow> x < 256 \<Longrightarrow> channelHex x = [hexDigit (nat x div 16), hexDigit (nat x mod 16)]"
  by (cases "nat x < 16") (auto simp: channelHex_def toString16_def natToString16_small natToString16_byte Let_def hexDigit_def)

lemma length_channelHex: "2 \<le> length (channelHex x)"
proof -
  have "Suc 0 \<le> length (toString16 x)"
    using length_natToString16[of "nat x"] by (simp add: toString16_def)
  then show ?thesis
    by (cases "length (toString16 x) = 1") (simp_all add: channelHex_def Let_def)
qed

lemma channelHex_00: "channelHex x = ''00'' \<longleftrightarrow> x = 0"
proof
  assume h: "channelHex x = ''00''"
  show "x = 0"
  proof (cases "x < 0")
    case True
    then have "hd (channelHex x) \<noteq> CHR ''0''"
      using natToString16_nonempty[of "nat (- x)"]
      by (simp add: channelHex_def toString16_def Let_def)
    with h show ?thesis by simp
  next
    case False
    then have x0: "0 \<le> x" by simp
    show ?thesis
    proof (cases "x < 256")
      case True
      with x0 h have "hexDigit (nat x div 16) = CHR ''0''" "hexDigit (nat x mod 16) = CHR ''0''"
        by (simp_all add: channelHex_byte)
      moreover have "nat x div 16 < 16" using True x0 by simp
      ultimately have "nat x div 16 = 0" "nat x mod 16 = 0"
        by (simp_all add: hexDigit_zero)
      then have "nat x = 0" using div_mult_mod_eq[of "nat x" 16] by simp
      with x0 show ?thesis by simp
    next
      case False
      then have "256 \<le> nat x" by simp
      from natToString16_long[OF this] x0 have "3 \<le> length (channelHex x)"
        by (simp add: channelHex_def toString16_def Let_def)
      with h show ?thesis by simp
    qed
  qed
next
  assume "x = 0" then show "channelHex x = ''00''"
    by (simp add: channelHex_def toString16_def natToString16_small hexDigit_def)
qed

lemma append3_eq:
  "length a = length a' \<Longrightarrow> length b = length b' \<Longrightarrow> a @ b @ c = a' @ b' @ c'
     \<Longrightarrow> a = a' \<and> b = b' \<and> c = c'"
  by simp

lemma length_channelHex_byte: "0 \<le> x \<Longrightarrow> x < 256 \<Longrightarrow> length (channelHex x) = 2"
  by (simp add: channelHex_byte)

lemma rgbToHex_black: "rgbToHex r g b = ''#000000'' \<longleftrightarrow> r = 0 \<and> g = 0 \<and> b = 0"
proof 
  assume h: "rgbToHex r g b = ''#000000''"
  then have e: "channelHex r @ channelHex g @ channelHex b = ''00'' @ ''00'' @ ''00''" by (simp add: rgbToHex_def)
  have "length (channelHex r @ channelHex g @ channelHex b) = 6"
    by (simp only: e) simp
  then have "length (channelHex r) + length (channelHex g) + length (channelHex b) = 6"
    by simp
  with length_channelHex[of r] length_channelHex[of g] length_channelHex[of b]
  have l: "length (channelHex r) = 2" "length (channelHex g) = 2" "length (channelHex b) = 2" by linarith+
  from l have "length (channelHex r) = length ''00''" "length (channelHex g) = length ''00''"
    by simp_all
  from append3_eq[OF this e]
  have "channelHex r = ''00''" "channelHex g = ''00''" "channelHex b = ''00''"
    by simp_all
  then show "r = 0 \<and> g = 0 \<and> b = 0" by (simp add: channelHex_00)
next
  assume "r = 0 \<and> g = 0 \<and> b = 0"
  moreover have "channelHex 0 = ''00''" by (simp add: channelHex_00)
  ultimately show "rgbToHex r g b = ''#000000''"
    by (simp add: rgbToHex_def)
qed

lemma rgbToHex_nonempty: "rgbToHex r g b \<noteq> []"
  by (simp add: rgbToHex_def)

lemma channelHex_inj: 
  assumes "0 \<le> x" "x < 256" "0 \<le> y" "y < 256" "channelHex x = channelHex y" shows "x = y"
proof -
  from assms have "hexDigit (nat x div 16) = hexDigit (nat y div 16)" "hexDigit (nat x mod 16) = hexDigit (nat y mod 16)"
    by (simp_all add: channelHex_byte)
  moreover have "nat x div 16 < 16" "nat y div 16 < 16" using assms by simp_all
  ultimately have "nat x div 16 = nat y div 16" "nat x mod 16 = nat y mod 16"
    using hexDigit_inj[of "nat x mod 16" "nat y mod 16"] hexDigit_inj[of "nat x div 16" "nat y div 16"]
    by simp_all
  then have "nat x = nat y" by (metis div_mult_mod_eq)
  with assms show ?thesis by simp
qed



lemma rgbToHex_inj:
  assumes "byte r" "byte g" "byte b" "byte r'" "byte g'" "byte b'"
    and "rgbToHex r g b = rgbToHex r' g' b'"
  shows "r = r' \<and> g = g' \<and> b = b'"
proof -
  from assms(7) have e: "channelHex r @ channelHex g @ channelHex b = channelHex r' @ channelHex g' @ channelHex b'"
    by (simp add: rgbToHex_def)
  have "length (channelHex r) = length (channelHex r')" "length (channelHex g) = length (channelHex g')"
    using assms(1-6) by (simp_all add: byte_def length_channelHex_byte)
  from append3_eq[OF this e] show ?thesis
    using assms(1-6) by (auto simp: byte_def dest: channelHex_inj)
qed


section \<open>Facts about the palette loop\<close>

lemma lastEntry_Some: "lastEntry ps i = Some p \<Longrightarrow> p \<in> set ps \<and> id_p p = i"
  by (induction ps) (auto split: option.splits if_splits)

lemma lastEntry_None: "lastEntry ps i = None \<longleftrightarrow> i \<notin> id_p ` set ps"
  by (induction ps) (auto split: option.splits)

lemma lastEntry_distinct:
  "distinct (map id_p ps) \<Longrightarrow> p \<in> set ps \<Longrightarrow> lastEntry ps (id_p p) = Some p"
proof (induction ps)
  case Nil
  then show ?case by simp
next
  case (Cons q ps)
  show ?case
  proof (cases "p \<in> set ps")
    case True
    with Cons show ?thesis by simp
  next
    case False
    with Cons.prems have pq: "p = q" and "id_p q \<notin> id_p ` set ps" by auto
    then have "lastEntry ps (id_p q) = None" by (simp add: lastEntry_None)
    with pq show ?thesis by simp
  qed
qed

lemma paletteLoop_lookup:
  "paletteLoop ps m l = Inr (m', l') \<Longrightarrow>
     m' i = (case lastEntry ps i of
               None \<Rightarrow> m i
             | Some p \<Rightarrow> (case entryHex p of Inr hex \<Rightarrow> Some hex | Inl e \<Rightarrow> None))"
proof (induction ps arbitrary: m l)
  case Nil
  then show ?case by simp
next
  case (Cons p ps)
  then obtain hex where hex: "entryHex p = Inr hex"
    and rest: "paletteLoop ps (m(id_p p \<mapsto> hex)) (l @ [hex]) = Inr (m', l')"
    by (auto split: sum.splits)
  from Cons.IH[OF rest] hex show ?case
    by (auto split: option.splits)
qed

lemma paletteLoop_entries:
  "paletteLoop ps m l = Inr (m', l') \<Longrightarrow> p \<in> set ps \<Longrightarrow> \<exists>hex. entryHex p = Inr hex"
proof (induction ps arbitrary: m l)
  case Nil
  then show ?case by simp
next
  case (Cons q ps)
  then show ?case by (auto split: sum.splits)
qed

lemma paletteLoop_list:
  "paletteLoop ps m l = Inr (m', l') \<Longrightarrow> map Inr l' = map Inr l @ map entryHex ps"
proof (induction ps arbitrary: m l)
  case Nil
  then show ?case by simp
next
  case (Cons q ps)
  then show ?case by (auto split: sum.splits)
qed

lemma entryHex_Inr:
  "entryHex p = Inr hex \<longleftrightarrow> (\<exists>r g b rest. rgb p = r # g # b # rest \<and> hex = rgbToHex r g b)"
  by (auto simp: entryHex_def split: list.splits)

lemma buildPixelResult_Inr:
  assumes "buildPixelResult d = Inr res"
  obtains paletteMap where "buildPalette d = Inr (paletteMap, usedPalette res)"
    and "\<And>rows. grid_data d = Some rows \<Longrightarrow> gridData res = map (map (cellHex paletteMap)) rows"
    and "grid_data d \<noteq> None"
  using assms by (auto simp: buildPixelResult_def split: sum.splits option.splits)

lemma cell_of_palette:
  assumes "paletteLoop ps Map.empty [] = Inr (paletteMap, l)"
    and "i \<in> id_p ` set ps"
  shows "\<exists>p r g b rest. lastEntry ps i = Some p \<and> p \<in> set ps \<and> id_p p = i \<and>
           rgb p = r # g # b # rest \<and> paletteMap i = Some (rgbToHex r g b) \<and>
           cellLookup paletteMap i = FromPalette (rgbToHex r g b) \<and>
           rgbToHex r g b \<in> set l"
proof -
  from assms(2) obtain p where p: "lastEntry ps i = Some p"
    using lastEntry_None[of ps i] by (cases "lastEntry ps i") auto
  then have mem: "p \<in> set ps" "id_p p = i" by (auto dest: lastEntry_Some)
  from paletteLoop_entries[OF assms(1) mem(1)] obtain hex where hex: "entryHex p = Inr hex" ..
  then obtain r g b rest where rgb: "rgb p = r # g # b # rest" "hex = rgbToHex r g b"
    by (auto simp: entryHex_Inr)
  from paletteLoop_lookup[OF assms(1), of i] p hex rgb
  have "paletteMap i = Some (rgbToHex r g b)" by simp
  then have look: "cellLookup paletteMap i = FromPalette (rgbToHex r g b)"
    by (simp add: cellLookup_def rgbToHex_nonempty)
  from mem(1) have "entryHex p \<in> set (map entryHex ps)" by simp
  with hex have "Inr hex \<in> set (map entryHex ps)" by simp
  also from paletteLoop_list[OF assms(1)] have "map entryHex ps = map Inr l" by simp
  finally have "hex \<in> set l" by auto
  with p mem rgb look \<open>paletteMap i = Some (rgbToHex r g b)\<close> show ?thesis by blast
qed

lemma fallback_iff_absent:
  assumes "paletteLoop ps Map.empty [] = Inr (paletteMap, l)"
  shows "cellLookup paletteMap i = Fallback \<longleftrightarrow> i \<notin> id_p ` set ps"
proof (cases "i \<in> id_p ` set ps")
  case True
  from cell_of_palette[OF assms True] show ?thesis using True by auto
next
  case False
  then have "lastEntry ps i = None" by (simp add: lastEntry_None)
  with paletteLoop_lookup[OF assms, of i] have "paletteMap i = None" by simp
  with False show ?thesis by (simp add: cellLookup_def)
qed

lemmas eval_hex = rgbToHex_def channelHex_def toString16_def natToString16.simps hexDigit_def Let_def

lemmas eval_build =
  buildPixelResult_def buildPalette_def entryHex_def cellHex_def cellLookup_def

lemma sample_build: "buildPixelResult sampleResponse = Inr sampleResult"
  by (simp add: sampleResponse_def sampleResult_def eval_build eval_hex)

lemma black_build: "buildPixelResult blackResponse = Inr blackResult"
  by (simp add: blackResponse_def blackResult_def eval_build eval_hex)


section \<open>Cells of the displayed grid\<close>

text \<open>
  Claim C1. A cell is a non-background cell when its id is the id of an entry of
  \<open>used_palette\<close>. Such a cell is looked up in \<open>paletteMap\<close> and found there: the cell of the
  displayed grid holds the hex of the RGB of the entry that carries its id (the last one,
  the only one when the ids are distinct), a member of the palette list, and the value
  comes from the map, not from the fallback of \<open>||\<close>. The fallback is taken for the ids
  that no entry of \<open>used_palette\<close> carries, and for no other.
\<close>

theorem handlePixelate_cell_from_palette:
  assumes "buildPixelResult d = Inr res"
    and "used_palette d = Some ps" and "grid_data d = Some rows"
    and "y < length rows" and "x < length (rows ! y)"
    and "rows ! y ! x \<in> id_p ` set ps"
  shows "\<exists>p r g b rest paletteMap.
           buildPalette d = Inr (paletteMap, usedPalette res) \<and>
           lastEntry ps (rows ! y ! x) = Some p \<and> p \<in> set ps \<and> id_p p = rows ! y ! x \<and>
           (distinct (map id_p ps) \<longrightarrow> (\<forall>q \<in> set ps. id_p q = rows ! y ! x \<longrightarrow> q = p)) \<and>
           rgb p = r # g # b # rest \<and>
           paletteMap (rows ! y ! x) = Some (rgbToHex r g b) \<and>
           cellLookup paletteMap (rows ! y ! x) = FromPalette (rgbToHex r g b) \<and>
           gridData res ! y ! x = rgbToHex r g b \<and>
           rgbToHex r g b \<in> set (usedPalette res) \<and>
           (\<forall>i. cellLookup paletteMap i = Fallback \<longleftrightarrow> i \<notin> id_p ` set ps)"
proof -
  from buildPixelResult_Inr[OF assms(1)] assms(3) obtain paletteMap
    where pal: "buildPalette d = Inr (paletteMap, usedPalette res)"
      and grid: "gridData res = map (map (cellHex paletteMap)) rows"
    by metis
  from pal assms(2) have loop: "paletteLoop ps Map.empty [] = Inr (paletteMap, usedPalette res)"
    by (simp add: buildPalette_def)
  from cell_of_palette[OF loop assms(6)] obtain p r g b rest where
    f: "lastEntry ps (rows ! y ! x) = Some p" "p \<in> set ps" "id_p p = rows ! y ! x"
       "rgb p = r # g # b # rest" "paletteMap (rows ! y ! x) = Some (rgbToHex r g b)"
       "cellLookup paletteMap (rows ! y ! x) = FromPalette (rgbToHex r g b)"
       "rgbToHex r g b \<in> set (usedPalette res)"
    by blast
  from grid assms(4,5) have "gridData res ! y ! x = cellHex paletteMap (rows ! y ! x)" by simp
  with f(6) have cell: "gridData res ! y ! x = rgbToHex r g b" by (simp add: cellHex_def)
  have uniq: "q = p" if "distinct (map id_p ps)" "q \<in> set ps" "id_p q = rows ! y ! x" for q
  proof -
    from lastEntry_distinct[OF that(1,2)] that(3) have "lastEntry ps (rows ! y ! x) = Some q"
      by simp
    with f(1) show ?thesis by simp
  qed
  have fb: "\<forall>i. cellLookup paletteMap i = Fallback \<longleftrightarrow> i \<notin> id_p ` set ps"
    using fallback_iff_absent[OF loop] by blast
  from pal f cell uniq fb show ?thesis by blast
qed

text \<open>
  Claim C1, witness: the cell of the black entry holds \<open>#000000\<close> from the map, not from the
  fallback; the lower left cell of the sample response holds the hex of entry \<open>B2\<close>.
\<close>

theorem handlePixelate_cell_from_palette_witness:
  "buildPixelResult blackResponse = Inr blackResult \<and>
   gridData blackResult ! 0 ! 0 = ''#000000'' \<and>
   (\<exists>paletteMap.
      buildPalette blackResponse = Inr (paletteMap, usedPalette blackResult) \<and>
      cellLookup paletteMap ''H7'' = FromPalette ''#000000'' \<and>
      cellLookup paletteMap ''BG'' = Fallback) \<and>
   buildPixelResult sampleResponse = Inr sampleResult \<and>
   gridData sampleResult ! 1 ! 0 = ''#0780c8'' \<and>
   (\<exists>paletteMap.
      buildPalette sampleResponse = Inr (paletteMap, usedPalette sampleResult) \<and>
      cellLookup paletteMap ''B2'' = FromPalette ''#0780c8'' \<and>
      cellLookup paletteMap ''BG'' = Fallback)"
proof -
  let ?bs = "[\<lparr>id_p = ''H7'', rgb = [0, 0, 0]\<rparr>]"
  have b2: "used_palette blackResponse = Some ?bs" by (simp add: blackResponse_def)
  have b3: "grid_data blackResponse = Some [[''H7'']]" by (simp add: blackResponse_def)
  have b4: "0 < length [[''H7'']]" by simp
  have b5: "0 < length ([[''H7'']] ! 0)" by simp
  have b6: "[[''H7'']] ! 0 ! 0 \<in> id_p ` set ?bs" by simp
  from handlePixelate_cell_from_palette[OF black_build b2 b3 b4 b5 b6]
  obtain p r g b rest bm where
    bpal: "buildPalette blackResponse = Inr (bm, usedPalette blackResult)"
    and blast: "lastEntry ?bs ([[''H7'']] ! 0 ! 0) = Some p" and brgb: "rgb p = r # g # b # rest"
    and blook: "cellLookup bm ([[''H7'']] ! 0 ! 0) = FromPalette (rgbToHex r g b)"
    and bfb: "\<forall>i. cellLookup bm i = Fallback \<longleftrightarrow> i \<notin> id_p ` set ?bs"
    by blast
  from blast have "p = \<lparr>id_p = ''H7'', rgb = [0, 0, 0]\<rparr>" by simp
  with brgb have "r = 0 \<and> g = 0 \<and> b = 0" by simp
  then have "rgbToHex r g b = ''#000000''" by (simp add: rgbToHex_black)
  with blook have bl: "cellLookup bm ''H7'' = FromPalette ''#000000''" by simp
  from bfb have bf: "cellLookup bm ''BG'' = Fallback" by simp
  have bcell: "gridData blackResult ! 0 ! 0 = ''#000000''" by (simp add: blackResult_def)
  let ?ps = "[\<lparr>id_p = ''A1'', rgb = [255, 0, 16]\<rparr>, \<lparr>id_p = ''B2'', rgb = [7, 128, 200]\<rparr>]"
  let ?rows = "[[''A1'', ''BG''], [''B2'', ''A1'']]"
  have h2: "used_palette sampleResponse = Some ?ps" by (simp add: sampleResponse_def)
  have h3: "grid_data sampleResponse = Some ?rows" by (simp add: sampleResponse_def)
  have h4: "1 < length ?rows" by simp
  have h5: "0 < length (?rows ! 1)" by simp
  have h6: "?rows ! 1 ! 0 \<in> id_p ` set ?ps" by simp
  from handlePixelate_cell_from_palette[OF sample_build h2 h3 h4 h5 h6]
  obtain q r' g' b' rest' sm where
    spal: "buildPalette sampleResponse = Inr (sm, usedPalette sampleResult)"
    and scell: "gridData sampleResult ! 1 ! 0 = rgbToHex r' g' b'"
    and slook: "cellLookup sm (?rows ! 1 ! 0) = FromPalette (rgbToHex r' g' b')"
    and sfb: "\<forall>i. cellLookup sm i = Fallback \<longleftrightarrow> i \<notin> id_p ` set ?ps"
    by blast
  have sval: "gridData sampleResult ! 1 ! 0 = ''#0780c8''" by (simp add: sampleResult_def)
  with scell slook have sl: "cellLookup sm ''B2'' = FromPalette ''#0780c8''" by simp
  from sfb have sf: "cellLookup sm ''BG'' = Fallback" by simp
  from bpal bl bf have "\<exists>paletteMap.
      buildPalette blackResponse = Inr (paletteMap, usedPalette blackResult) \<and>
      cellLookup paletteMap ''H7'' = FromPalette ''#000000'' \<and>
      cellLookup paletteMap ''BG'' = Fallback" by blast
  moreover from spal sl sf have "\<exists>paletteMap.
      buildPalette sampleResponse = Inr (paletteMap, usedPalette sampleResult) \<and>
      cellLookup paletteMap ''B2'' = FromPalette ''#0780c8'' \<and>
      cellLookup paletteMap ''BG'' = Fallback" by blast
  ultimately show ?thesis using black_build bcell sample_build sval by (intro conjI)
qed


section \<open>The palette list\<close>

lemma entryHex_inj:
  assumes "entryHex p = Inr hex" "entryHex q = Inr hex"
    and "list_all byte (take 3 (rgb p))" "list_all byte (take 3 (rgb q))"
  shows "take 3 (rgb p) = take 3 (rgb q)"
proof -
  from assms(1) obtain r g b rest where p: "rgb p = r # g # b # rest" "hex = rgbToHex r g b"
    by (auto simp: entryHex_Inr)
  from assms(2) obtain r' g' b' rest' where q: "rgb q = r' # g' # b' # rest'" "hex = rgbToHex r' g' b'"
    by (auto simp: entryHex_Inr)
  from p q assms(3,4) have "byte r" "byte g" "byte b" "byte r'" "byte g'" "byte b'"
    by (simp_all add: numeral_3_eq_3)
  from rgbToHex_inj[OF this] p q show ?thesis by (simp add: numeral_3_eq_3)
qed

text \<open>
  Claim C3, as amended. The hex list is duplicate-free when the RGB triples of the entries
  of \<open>used_palette\<close> are pairwise distinct and each channel is an integer from 0 to 255:
  distinct ids alone do not give it.
\<close>

theorem usedPalette_distinct:
  assumes "buildPixelResult d = Inr res" and "used_palette d = Some ps"
    and "distinct (map (\<lambda>p. take 3 (rgb p)) ps)"
    and "\<forall>p \<in> set ps. list_all byte (take 3 (rgb p))"
  shows "distinct (usedPalette res)"
proof -
  from buildPixelResult_Inr[OF assms(1)] obtain paletteMap
    where "buildPalette d = Inr (paletteMap, usedPalette res)" by metis
  with assms(2) have loop: "paletteLoop ps Map.empty [] = Inr (paletteMap, usedPalette res)"
    by (simp add: buildPalette_def)
  from paletteLoop_list[OF loop] have l: "map Inr (usedPalette res) = map entryHex ps" by simp
  from assms(3) have dps: "distinct ps" and inj: "inj_on (\<lambda>p. take 3 (rgb p)) (set ps)"
    by (simp_all add: distinct_map)
  have "inj_on entryHex (set ps)"
  proof (rule inj_onI)
    fix p q assume pq: "p \<in> set ps" "q \<in> set ps" "entryHex p = entryHex q"
    from paletteLoop_entries[OF loop pq(1)] obtain hex where "entryHex p = Inr hex" ..
    with pq(3) have "entryHex p = Inr hex" "entryHex q = Inr hex" by simp_all
    from entryHex_inj[OF this] assms(4) pq(1,2) have "take 3 (rgb p) = take 3 (rgb q)" by simp
    with inj pq(1,2) show "p = q" by (auto dest: inj_onD)
  qed
  with dps have "distinct (map entryHex ps)" by (simp add: distinct_map)
  with l have "distinct (map (Inr :: string \<Rightarrow> thrown + string) (usedPalette res))" by simp
  then show ?thesis by (simp add: distinct_map)
qed

text \<open>
  Claim C3 as stated fails on two entries with different ids and the same RGB.
\<close>

theorem twin_rgb_counterexample:
  "used_palette twinResponse =
     Some [\<lparr>id_p = ''A1'', rgb = [255, 255, 255]\<rparr>, \<lparr>id_p = ''A2'', rgb = [255, 255, 255]\<rparr>] \<and>
   distinct [''A1'', ''A2''] \<and>
   buildPixelResult twinResponse =
     Inr \<lparr> gridData = [[''#ffffff'', ''#ffffff'']], usedPalette = [''#ffffff'', ''#ffffff''],
           width = 2, height = 1, preview = [] \<rparr> \<and>
   \<not> distinct [''#ffffff'', ''#ffffff'']"
  by (simp add: twinResponse_def eval_build eval_hex)

text \<open>
  Claim C3, witness: the sample response.
\<close>

theorem usedPalette_distinct_witness:
  "buildPixelResult sampleResponse = Inr sampleResult \<and>
   distinct (map (\<lambda>p. take 3 (rgb p)) [\<lparr>id_p = ''A1'', rgb = [255, 0, 16]\<rparr>, \<lparr>id_p = ''B2'', rgb = [7, 128, 200]\<rparr>]) \<and>
   list_all (\<lambda>p. list_all byte (take 3 (rgb p)))
     [\<lparr>id_p = ''A1'', rgb = [255, 0, 16]\<rparr>, \<lparr>id_p = ''B2'', rgb = [7, 128, 200]\<rparr>] \<and>
   distinct (usedPalette sampleResult)"
proof -
  let ?ps = "[\<lparr>id_p = ''A1'', rgb = [255, 0, 16]\<rparr>, \<lparr>id_p = ''B2'', rgb = [7, 128, 200]\<rparr>]"
  have h1: "buildPixelResult sampleResponse = Inr sampleResult" by (rule sample_build)
  have h2: "used_palette sampleResponse = Some ?ps" by (simp add: sampleResponse_def)
  have h3: "distinct (map (\<lambda>p. take 3 (rgb p)) ?ps)" by simp
  have h4: "\<forall>p \<in> set ?ps. list_all byte (take 3 (rgb p))" by (simp add: byte_def)
  from h4 have h4': "list_all (\<lambda>p. list_all byte (take 3 (rgb p))) ?ps"
    by (simp only: list_all_iff)
  from usedPalette_distinct[OF h1 h2 h3 h4] h1 h3 h4' show ?thesis by blast
qed


section \<open>The paint loop\<close>

lemma viewerReach_visible:
  "viewerReach props v \<Longrightarrow> visibleColors v |\<subseteq>| fset_of_list (usedPalette props)"
proof (induction rule: viewerReach.induct)
  case (vr_init props)
  then show ?case by (simp add: initViewer_def)
next
  case (vr_toggle props v color)
  then show ?case
    by (auto simp: toggleColorVisibility_def Let_def fset_of_list_elem)
next
  case (vr_toggleAll props v)
  then show ?case by (simp add: toggleAllColors_def)
next
  case (vr_zoomOut props v)
  then show ?case by (simp add: zoomOut_def)
next
  case (vr_zoomIn props v)
  then show ?case by (simp add: zoomIn_def)
next
  case (vr_grid props v)
  then show ?case by simp
next
  case (vr_padding props v)
  then show ?case by simp
next
  case (vr_props props0 v props)
  show ?case by simp
qed

lemma viewerReach_scale: "viewerReach props v \<Longrightarrow> 1 \<le> scale v \<and> scale v \<le> 50"
  by (induction rule: viewerReach.induct)
     (auto simp: initViewer_def toggleColorVisibility_def toggleAllColors_def zoomOut_def
        zoomIn_def Let_def)

lemma paintRow_mem:
  "FillRect c X Y w h \<in> set (paintRow v y row) \<Longrightarrow>
     \<exists>x. x < length row \<and> c = row ! x \<and> c |\<in>| visibleColors v \<and>
         X = x * scale v \<and> Y = y * scale v \<and> w = scale v \<and> h = scale v"
  by (auto simp: paintRow_def in_set_enumerate_eq split: if_splits)

lemma paintGrid_mem:
  "FillRect c X Y w h \<in> set (paintGrid props v) \<Longrightarrow>
     \<exists>y x. y < length (gridData props) \<and> x < length (gridData props ! y) \<and>
         c = gridData props ! y ! x \<and> c |\<in>| visibleColors v \<and>
         X = x * scale v \<and> Y = y * scale v \<and> w = scale v \<and> h = scale v"
proof -
  assume "FillRect c X Y w h \<in> set (paintGrid props v)"
  then obtain y where y: "y < length (gridData props)"
    and "FillRect c X Y w h \<in> set (paintRow v y (gridData props ! y))"
    by (auto simp: paintGrid_def in_set_enumerate_eq)
  from paintRow_mem[OF this(2)] y show ?thesis by blast
qed

lemma paintGrid_mem_conv:
  "y < length (gridData props) \<Longrightarrow> x < length (gridData props ! y) \<Longrightarrow>
   gridData props ! y ! x |\<in>| visibleColors v \<Longrightarrow>
   FillRect (gridData props ! y ! x) (x * scale v) (y * scale v) (scale v) (scale v)
     \<in> set (paintGrid props v)"
  apply (simp add: paintGrid_def paintRow_def)
  apply (rule bexI[where x = "(y, gridData props ! y)"])
   apply simp
   apply (rule bexI[where x = "(x, gridData props ! y ! x)"])
    apply simp
   apply (simp add: in_set_enumerate_eq)
  apply (simp add: in_set_enumerate_eq)
  done

lemma cell_not_in_palette:
  assumes "buildPixelResult d = Inr res" and "grid_data d = Some rows"
    and "y < length rows" and "x < length (rows ! y)"
    and "\<forall>ps. used_palette d = Some ps \<longrightarrow> rows ! y ! x \<notin> id_p ` set ps"
  shows "gridData res ! y ! x = ''#000000''"
proof -
  from buildPixelResult_Inr[OF assms(1)] assms(2) obtain paletteMap
    where pal: "buildPalette d = Inr (paletteMap, usedPalette res)"
      and grid: "gridData res = map (map (cellHex paletteMap)) rows"
    by metis
  have "paletteMap (rows ! y ! x) = None"
  proof (cases "used_palette d")
    case None
    with pal have "paletteMap = Map.empty" by (simp add: buildPalette_def)
    then show ?thesis by simp
  next
    case (Some ps)
    with pal have loop: "paletteLoop ps Map.empty [] = Inr (paletteMap, usedPalette res)"
      by (simp add: buildPalette_def)
    from Some assms(5) have "lastEntry ps (rows ! y ! x) = None" by (simp add: lastEntry_None)
    with paletteLoop_lookup[OF loop, of "rows ! y ! x"] show ?thesis by simp
  qed
  with grid assms(3,4) show ?thesis by (simp add: cellHex_def cellLookup_def)
qed

text \<open>
  A cell whose id is no entry of \<open>used_palette\<close> holds \<open>#000000\<close>. When \<open>#000000\<close> is not in
  \<open>usedPalette\<close>, it is in no visible set of a viewer that shows the result, and a run of
  the drawing effect with such a state makes no \<open>fillRect\<close> call at the cell's position.
\<close>

lemma current_pass_skips_background:
  assumes "buildPixelResult d = Inr res" and "grid_data d = Some rows"
    and "y < length rows" and "x < length (rows ! y)"
    and "\<forall>ps. used_palette d = Some ps \<longrightarrow> rows ! y ! x \<notin> id_p ` set ps"
    and "''#000000'' \<notin> set (usedPalette res)"
    and "viewerReach res v"
  shows "gridData res ! y ! x = ''#000000'' \<and>
         ''#000000'' |\<notin>| visibleColors (initViewer res) \<and>
         ''#000000'' |\<notin>| visibleColors v \<and>
         (\<forall>c w h. FillRect c (x * scale v) (y * scale v) w h \<notin> set (paintGrid res v))"
proof -
  have cell: "gridData res ! y ! x = ''#000000''"
    by (rule cell_not_in_palette[OF assms(1-5)])
  from assms(6) have init: "''#000000'' |\<notin>| visibleColors (initViewer res)"
    by (simp add: initViewer_def fset_of_list_elem)
  from viewerReach_visible[OF assms(7)] assms(6) have vis: "''#000000'' |\<notin>| visibleColors v"
    by (auto simp: fset_of_list_elem)
  from viewerReach_scale[OF assms(7)] have sc: "0 < scale v" by simp
  have "FillRect c (x * scale v) (y * scale v) w h \<notin> set (paintGrid res v)" for c w h
  proof
    assume "FillRect c (x * scale v) (y * scale v) w h \<in> set (paintGrid res v)"
    from paintGrid_mem[OF this] obtain y' x' where
      m: "c = gridData res ! y' ! x'" "c |\<in>| visibleColors v"
         "x * scale v = x' * scale v" "y * scale v = y' * scale v"
      by blast
    with sc have "x' = x" "y' = y" by simp_all
    with m cell vis show False by simp
  qed
  with cell init vis show ?thesis by blast
qed

lemma stale_pass: "paintPass sampleResult (initViewer blackResult)"
  by (rule pp_stale) (rule vr_init)

lemma settled_pass:
  "viewerReach sampleResult
     ((initViewer blackResult)\<lparr>visibleColors := fset_of_list (usedPalette sampleResult)\<rparr>)"
  by (rule vr_props) (rule vr_init)

text \<open>
  Claim C2, at the input where the code departs from it. The viewer shows the result of the
  black response, then the result of the sample response arrives, whose palette has no
  \<open>#000000\<close> and whose cell at column 1 of row 0 (\<open>BG\<close>) has no palette entry. The drawing
  effect runs on the new grid with the visible set left from the black result and paints
  that cell; the run after the update of \<open>visibleColors\<close> leaves it unpainted.
\<close>

theorem stale_pass_paints_background:
  "buildPixelResult sampleResponse = Inr sampleResult \<and>
   ''BG'' \<notin> id_p ` set [\<lparr>id_p = ''A1'', rgb = [255, 0, 16]\<rparr>, \<lparr>id_p = ''B2'', rgb = [7, 128, 200]\<rparr>] \<and>
   ''#000000'' \<notin> set (usedPalette sampleResult) \<and>
   gridData sampleResult ! 0 ! 1 = ''#000000'' \<and>
   paintPass sampleResult (initViewer blackResult) \<and>
   paintGrid sampleResult (initViewer blackResult) = [FillRect ''#000000'' 10 0 10 10] \<and>
   viewerReach sampleResult
     ((initViewer blackResult)\<lparr>visibleColors := fset_of_list (usedPalette sampleResult)\<rparr>) \<and>
   paintGrid sampleResult
     ((initViewer blackResult)\<lparr>visibleColors := fset_of_list (usedPalette sampleResult)\<rparr>) =
     [FillRect ''#ff0010'' 0 0 10 10, FillRect ''#0780c8'' 0 10 10 10,
      FillRect ''#ff0010'' 10 10 10 10]"
proof -
  have a: "''BG'' \<notin> id_p ` set [\<lparr>id_p = ''A1'', rgb = [255, 0, 16]\<rparr>,
      \<lparr>id_p = ''B2'', rgb = [7, 128, 200]\<rparr>]" by simp
  have b: "''#000000'' \<notin> set (usedPalette sampleResult)" by (simp add: sampleResult_def)
  have c: "gridData sampleResult ! 0 ! 1 = ''#000000''" by (simp add: sampleResult_def)
  have d: "paintGrid sampleResult (initViewer blackResult) = [FillRect ''#000000'' 10 0 10 10]"
    by (simp add: paintGrid_def paintRow_def initViewer_def sampleResult_def blackResult_def
        enumerate_eq_zip upt_rec[of 0] upt_rec[of 1])
  have e: "paintGrid sampleResult
     ((initViewer blackResult)\<lparr>visibleColors := fset_of_list (usedPalette sampleResult)\<rparr>) =
     [FillRect ''#ff0010'' 0 0 10 10, FillRect ''#0780c8'' 0 10 10 10,
      FillRect ''#ff0010'' 10 10 10 10]"
    by (simp add: paintGrid_def paintRow_def initViewer_def sampleResult_def blackResult_def
        enumerate_eq_zip upt_rec[of 0] upt_rec[of 1])
  from sample_build a b c stale_pass d settled_pass e show ?thesis by (intro conjI)
qed


section \<open>The canvas size\<close>

text \<open>
  Claim C6, as amended. The canvas is \<open>width * scale\<close> by \<open>height * scale\<close> without the
  white border and \<open>(width + 2) * scale\<close> by \<open>(height + 2) * scale\<close> with it; the viewer
  starts with the border.
\<close>

theorem canvas_size:
  "canvasWidth props v = (if addPadding v then (width props + 2) * scale v else width props * scale v) \<and>
   canvasHeight props v = (if addPadding v then (height props + 2) * scale v else height props * scale v) \<and>
   addPadding (initViewer props)"
  by (simp add: canvasWidth_def canvasHeight_def initViewer_def algebra_simps)

text \<open>
  Claim C6 as stated fails in the initial state of the viewer: a grid of 2 by 2 at scale
  10 has a canvas of 40 by 40, not 20 by 20.
\<close>

theorem canvas_padding_counterexample:
  "canvasWidth sampleResult (initViewer sampleResult) = 40 \<and>
   width sampleResult * scale (initViewer sampleResult) = 20 \<and>
   canvasHeight sampleResult (initViewer sampleResult) = 40 \<and>
   height sampleResult * scale (initViewer sampleResult) = 20"
  by (simp add: canvasWidth_def canvasHeight_def initViewer_def sampleResult_def)


section \<open>Colour visibility\<close>

lemma toggle_in:
  "c |\<in>| visibleColors v \<Longrightarrow>
     toggleColorVisibility v c = v\<lparr>visibleColors := visibleColors v |-| {|c|}\<rparr>"
  by (simp add: toggleColorVisibility_def Let_def)

lemma toggle_out:
  "c |\<notin>| visibleColors v \<Longrightarrow>
     toggleColorVisibility v c = v\<lparr>visibleColors := finsert c (visibleColors v)\<rparr>"
  by (simp add: toggleColorVisibility_def Let_def)

lemma finsert_fminus_same: "c |\<in>| V \<Longrightarrow> finsert c (V |-| {|c|}) = V"
  by (rule fset_eqI) auto

lemma fminus_finsert_same: "c |\<notin>| V \<Longrightarrow> finsert c V |-| {|c|} = V"
  by (rule fset_eqI) auto

text \<open>
  Claim C8. Toggling a colour twice restores the viewer state; toggling it once flips its
  membership in the visible set and leaves the membership of every other colour as it
  was.
\<close>

theorem toggleColorVisibility_involution:
  "toggleColorVisibility (toggleColorVisibility v c) c = v \<and>
   (c |\<in>| visibleColors (toggleColorVisibility v c) \<longleftrightarrow> c |\<notin>| visibleColors v) \<and>
   (\<forall>c'. c' \<noteq> c \<longrightarrow>
      (c' |\<in>| visibleColors (toggleColorVisibility v c) \<longleftrightarrow> c' |\<in>| visibleColors v))"
proof (cases "c |\<in>| visibleColors v")
  case True
  let ?u = "v\<lparr>visibleColors := visibleColors v |-| {|c|}\<rparr>"
  have u: "toggleColorVisibility v c = ?u" using True by (rule toggle_in)
  have "c |\<notin>| visibleColors ?u" by simp
  then have "toggleColorVisibility ?u c = ?u\<lparr>visibleColors := finsert c (visibleColors ?u)\<rparr>"
    by (rule toggle_out)
  also have "\<dots> = v" using True by (simp add: finsert_absorb)
  finally have twice: "toggleColorVisibility ?u c = v" .
  show ?thesis unfolding u using True twice by simp
next
  case False
  let ?u = "v\<lparr>visibleColors := finsert c (visibleColors v)\<rparr>"
  have u: "toggleColorVisibility v c = ?u" using False by (rule toggle_out)
  have "c |\<in>| visibleColors ?u" by simp
  then have "toggleColorVisibility ?u c = ?u\<lparr>visibleColors := visibleColors ?u |-| {|c|}\<rparr>"
    by (rule toggle_in)
  also have "\<dots> = v" using False by (simp add: fminus_finsert_same)
  finally have twice: "toggleColorVisibility ?u c = v" .
  show ?thesis unfolding u using False twice by simp
qed

text \<open>
  Claim C8, witness: the first palette colour of the sample result is toggled, the second
  stays visible.
\<close>

theorem toggleColorVisibility_involution_witness:
  "toggleColorVisibility (toggleColorVisibility (initViewer sampleResult) ''#ff0010'') ''#ff0010''
     = initViewer sampleResult \<and>
   ''#ff0010'' |\<in>| visibleColors (initViewer sampleResult) \<and>
   ''#ff0010'' |\<notin>| visibleColors (toggleColorVisibility (initViewer sampleResult) ''#ff0010'') \<and>
   ''#0780c8'' \<noteq> ''#ff0010'' \<and>
   ''#0780c8'' |\<in>| visibleColors (toggleColorVisibility (initViewer sampleResult) ''#ff0010'')"
proof -
  have a: "''#ff0010'' |\<in>| visibleColors (initViewer sampleResult)"
    and b: "''#0780c8'' |\<in>| visibleColors (initViewer sampleResult)"
    by (simp_all add: initViewer_def sampleResult_def)
  have ne: "''#0780c8'' \<noteq> ''#ff0010''" by simp
  note t = toggleColorVisibility_involution[of "initViewer sampleResult" "''#ff0010''"]
  from t have t1: "toggleColorVisibility (toggleColorVisibility (initViewer sampleResult) ''#ff0010'') ''#ff0010''
     = initViewer sampleResult" by (rule conjunct1)
  from t a have t2: "''#ff0010'' |\<notin>| visibleColors (toggleColorVisibility (initViewer sampleResult) ''#ff0010'')"
    by (simp only: simp_thms)
  from t have "''#0780c8'' \<noteq> ''#ff0010'' \<longrightarrow>
      (''#0780c8'' |\<in>| visibleColors (toggleColorVisibility (initViewer sampleResult) ''#ff0010'')
        \<longleftrightarrow> ''#0780c8'' |\<in>| visibleColors (initViewer sampleResult))"
    by (elim conjE allE)
  with ne b have t3: "''#0780c8'' |\<in>| visibleColors (toggleColorVisibility (initViewer sampleResult) ''#ff0010'')"
    by (simp only: simp_thms)
  from t1 a t2 ne t3 show ?thesis by (intro conjI)
qed

lemma fcard_fset_of_list_le: "fcard (fset_of_list xs) \<le> length xs"
  by (simp add: fcard.rep_eq fset_of_list.rep_eq card_length)

lemma fcard_fset_of_list_eq: "fcard (fset_of_list xs) = length xs \<longleftrightarrow> distinct xs"
  by (auto simp: fcard.rep_eq fset_of_list.rep_eq distinct_card card_distinct)

lemma viewerReach_card:
  assumes "viewerReach props v" and "\<not> distinct (usedPalette props)"
  shows "fcard (visibleColors v) < length (usedPalette props)"
proof -
  from viewerReach_visible[OF assms(1)]
  have "fcard (visibleColors v) \<le> fcard (fset_of_list (usedPalette props))"
    by (rule fcard_mono)
  moreover from assms(2) have "fcard (fset_of_list (usedPalette props)) \<noteq> length (usedPalette props)"
    by (simp add: fcard_fset_of_list_eq)
  ultimately show ?thesis using fcard_fset_of_list_le[of "usedPalette props"] by linarith
qed

text \<open>
  Claim C9. \<open>toggleAllColors\<close> empties the visible set when its size equals the length of
  \<open>usedPalette\<close> and sets it to the palette colours otherwise. When \<open>usedPalette\<close> has a
  duplicate, the sizes differ in every state the viewer can reach, the state with all
  palette colours visible included, so the emptying branch is never taken.
\<close>

theorem toggleAllColors_branches:
  "(fcard (visibleColors v) = length (usedPalette props)
      \<longrightarrow> toggleAllColors props v = v\<lparr>visibleColors := {||}\<rparr>) \<and>
   (fcard (visibleColors v) \<noteq> length (usedPalette props)
      \<longrightarrow> toggleAllColors props v = v\<lparr>visibleColors := fset_of_list (usedPalette props)\<rparr>) \<and>
   (\<not> distinct (usedPalette props) \<longrightarrow>
      fcard (fset_of_list (usedPalette props)) \<noteq> length (usedPalette props) \<and>
      (\<forall>u. viewerReach props u \<longrightarrow>
         fcard (visibleColors u) \<noteq> length (usedPalette props) \<and>
         visibleColors (toggleAllColors props u) = fset_of_list (usedPalette props)))"
proof -
  have "fcard (visibleColors u) \<noteq> length (usedPalette props) \<and>
        visibleColors (toggleAllColors props u) = fset_of_list (usedPalette props)"
    if "\<not> distinct (usedPalette props)" "viewerReach props u" for u
    using viewerReach_card[OF that(2,1)] by (simp add: toggleAllColors_def)
  then show ?thesis
    by (simp add: toggleAllColors_def fcard_fset_of_list_eq)
qed

text \<open>
  Claim C9, witness: with the duplicated palette the toggle leaves everything visible; with
  the sample palette it hides everything.
\<close>

theorem toggleAllColors_branches_witness:
  "\<not> distinct (usedPalette twinResult) \<and>
   viewerReach twinResult (initViewer twinResult) \<and>
   visibleColors (initViewer twinResult) = {|''#ffffff''|} \<and>
   fcard (visibleColors (initViewer twinResult)) \<noteq> length (usedPalette twinResult) \<and>
   toggleAllColors twinResult (initViewer twinResult) = initViewer twinResult \<and>
   fcard (visibleColors (initViewer sampleResult)) = length (usedPalette sampleResult) \<and>
   visibleColors (toggleAllColors sampleResult (initViewer sampleResult)) = {||}"
proof -
  have h1: "\<not> distinct (usedPalette twinResult)" by (simp add: twinResult_def)
  have h2: "viewerReach twinResult (initViewer twinResult)" by (rule vr_init)
  have v: "visibleColors (initViewer twinResult) = {|''#ffffff''|}"
    by (simp add: initViewer_def twinResult_def)
  have h3: "fcard (visibleColors (initViewer sampleResult)) = length (usedPalette sampleResult)"
    by (simp add: initViewer_def sampleResult_def fcard_finsert_if)
  from toggleAllColors_branches[of "initViewer twinResult" twinResult] h1 h2
  have a: "fcard (visibleColors (initViewer twinResult)) \<noteq> length (usedPalette twinResult)"
    by blast
  with toggleAllColors_branches[of "initViewer twinResult" twinResult]
  have b: "toggleAllColors twinResult (initViewer twinResult) = initViewer twinResult"
    by (simp add: initViewer_def)
  from toggleAllColors_branches[of "initViewer sampleResult" sampleResult] h3
  have c: "visibleColors (toggleAllColors sampleResult (initViewer sampleResult)) = {||}"
    by simp
  from h1 h2 v a b h3 c show ?thesis by blast
qed


section \<open>Request parameters\<close>

lemma density_values:
  "sliderValues 16 128 8 = [16, 24, 32, 40, 48, 56, 64, 72, 80, 88, 96, 104, 112, 120, 128]"
  by code_simp

lemma color_values:
  "sliderValues 5 30 1 = [5, 6, 7, 8, 9, 10, 11, 12, 13, 14, 15, 16, 17, 18, 19, 20, 21, 22, 23,
      24, 25, 26, 27, 28, 29, 30]"
  by code_simp

lemma sliderValues_mem:
  "v \<in> set (sliderValues lo hi st) \<longleftrightarrow> (\<exists>k \<le> (hi - lo) div st. v = lo + k * st)"
proof -
  have "{0..<Suc ((hi - lo) div st)} = {k. k \<le> (hi - lo) div st}" by auto
  then have "set (sliderValues lo hi st) = (\<lambda>k. lo + k * st) ` {k. k \<le> (hi - lo) div st}"
    by (simp only: sliderValues_def set_map set_upt)
  then show ?thesis by auto
qed

lemma color_set: "set (sliderValues 5 30 1) = {5..30}"
proof (rule set_eqI)
  fix v :: nat
  have "(\<exists>k\<le>25. v = 5 + k) \<longleftrightarrow> 5 \<le> v \<and> v \<le> 30" by presburger
  then show "v \<in> set (sliderValues 5 30 1) \<longleftrightarrow> v \<in> {5..30}"
    by (simp add: sliderValues_mem)
qed

lemma density_range: "v \<in> set (sliderValues 16 128 8) \<Longrightarrow> 16 \<le> v \<and> v \<le> 128"
  by (auto simp: sliderValues_mem)

lemma color_range: "v \<in> set (sliderValues 5 30 1) \<Longrightarrow> 5 \<le> v \<and> v \<le> 30"
  by (auto simp: sliderValues_mem)

lemma paramsOk_begin: "paramsOk st issued \<Longrightarrow> paramsOk (handlePixelate_begin st) issued"
  by (simp add: paramsOk_def handlePixelate_begin_def)

lemma paramsOk_issue:
  "paramsOk st issued \<Longrightarrow> gridOk g \<Longrightarrow> colorsOk c \<Longrightarrow> paramsOk st' issued
     \<Longrightarrow> paramsOk st' (issue st (g, c) issued)"
  by (simp add: paramsOk_def issue_def)

lemma paramsOk_settle:
  "paramsOk st issued \<Longrightarrow> (g, c) \<in> set issued \<Longrightarrow> paramsOk (handlePixelate_settle st g c out) issued"
  by (auto simp: paramsOk_def handlePixelate_settle_def list_all_iff split: sum.splits)

lemma appReach_paramsOk: "appReach st issued \<Longrightarrow> paramsOk st issued"
proof (induction rule: appReach.induct)
  case ar_init
  show ?case by (simp add: paramsOk_def initialApp_def gridOk_def colorsOk_def)
next
  case (ar_upload st issued url)
  then show ?case by (simp add: paramsOk_def handleUpload_def)
next
  case (ar_reset st issued)
  then show ?case by (simp add: paramsOk_def handleReset_def)
next
  case (ar_stepper st issued n)
  then show ?case by (simp add: paramsOk_def)
next
  case (ar_cropped st issued url)
  then show ?case by (simp add: paramsOk_def)
next
  case (ar_generate st issued url e l)
  then show ?case by (simp add: paramsOk_def)
next
  case (ar_default st issued)
  have "gridOk 64" "colorsOk 15" by (simp_all add: gridOk_def colorsOk_def)
  with ar_default.IH show ?case by (intro paramsOk_issue paramsOk_begin)
next
  case (ar_density st issued v)
  from density_range[OF ar_density.hyps(2)] ar_density.IH show ?case
    by (simp add: paramsOk_def gridOk_def)
next
  case (ar_densityUp st issued)
  then have "gridOk (tempGridSize st)" "colorsOk (maxColors st)" by (simp_all add: paramsOk_def)
  with ar_densityUp.IH show ?case by (intro paramsOk_issue paramsOk_begin)
next
  case (ar_colors st issued v)
  from color_range[OF ar_colors.hyps(2)] ar_colors.IH show ?case
    by (simp add: paramsOk_def colorsOk_def)
next
  case (ar_colorsUp st issued)
  then have "gridOk (gridSize st)" "colorsOk (tempMaxColors st)" by (simp_all add: paramsOk_def)
  with ar_colorsUp.IH show ?case by (intro paramsOk_issue paramsOk_begin)
next
  case (ar_settle st issued g c out)
  then show ?case by (intro paramsOk_settle)
qed

text \<open>
  Claim C4. In every state the application can reach, \<open>gridSize\<close> and the slider's
  \<open>tempGridSize\<close> lie in 16..128 and \<open>maxColors\<close> and \<open>tempMaxColors\<close> in 5..30, and so do the
  parameters of every request issued so far. The density slider holds one of 16, 24, ...,
  128 and the colour slider one of 5, ..., 30; the button of the second view asks for
  (64, 15).
\<close>

theorem request_parameters_in_range:
  assumes "appReach st issued"
  shows "16 \<le> gridSize st \<and> gridSize st \<le> 128 \<and> 5 \<le> maxColors st \<and> maxColors st \<le> 30 \<and>
         16 \<le> tempGridSize st \<and> tempGridSize st \<le> 128 \<and>
         5 \<le> tempMaxColors st \<and> tempMaxColors st \<le> 30 \<and>
         (\<forall>(g, c) \<in> set issued. 16 \<le> g \<and> g \<le> 128 \<and> 5 \<le> c \<and> c \<le> 30) \<and>
         sliderValues 16 128 8 = [16, 24, 32, 40, 48, 56, 64, 72, 80, 88, 96, 104, 112, 120, 128] \<and>
         set (sliderValues 5 30 1) = {5..30}"
proof -
  from appReach_paramsOk[OF assms] have "paramsOk st issued" .
  then have "16 \<le> gridSize st \<and> gridSize st \<le> 128 \<and> 5 \<le> maxColors st \<and> maxColors st \<le> 30 \<and>
         16 \<le> tempGridSize st \<and> tempGridSize st \<le> 128 \<and>
         5 \<le> tempMaxColors st \<and> tempMaxColors st \<le> 30 \<and>
         (\<forall>(g, c) \<in> set issued. 16 \<le> g \<and> g \<le> 128 \<and> 5 \<le> c \<and> c \<le> 30)"
    by (simp add: paramsOk_def gridOk_def colorsOk_def list_all_iff case_prod_beta)
  with density_values color_set show ?thesis by blast
qed

lemma sampleApp_reach: "appReach sampleApp [(64, 15), (128, 15)]"
proof -
  let ?s1 = "handleUpload initialApp ''blob:1''"
  let ?s2 = "handlePixelate_settle (handlePixelate_begin ?s1) 64 15 (Ok sampleResponse)"
  let ?s3 = "?s2\<lparr>tempGridSize := 128\<rparr>"
  have src1: "sourceImage ?s1 \<noteq> []"
    by (simp add: sourceImage_def handleUpload_def initialApp_def)
  have r1: "appReach ?s1 []" by (intro ar_upload ar_init)
  have "appReach (handlePixelate_begin ?s1) (issue ?s1 (64, 15) [])" using r1 by (rule ar_default)
  then have r2: "appReach (handlePixelate_begin ?s1) [(64, 15)]"
    using src1 by (simp add: issue_def)
  have r3: "appReach ?s2 [(64, 15)]" using r2 by (rule ar_settle) simp
  have r4: "appReach ?s3 [(64, 15)]" using r3 by (rule ar_density) (simp add: density_values)
  have st3: "sourceImage ?s3 \<noteq> []" "tempGridSize ?s3 = 128" "maxColors ?s3 = 15"
    by (simp_all add: sourceImage_def handleUpload_def initialApp_def handlePixelate_begin_def
        handlePixelate_settle_def tryBlock_def sample_build)
  have "appReach (handlePixelate_begin ?s3) (issue ?s3 (tempGridSize ?s3, maxColors ?s3) [(64, 15)])"
    using r4 by (rule ar_densityUp)
  then have "appReach (handlePixelate_begin ?s3) [(64, 15), (128, 15)]"
    using st3 by (simp add: issue_def)
  then show ?thesis by (simp only: sampleApp_def)
qed

text \<open>
  Claim C4, witness: upload, pixelate with the defaults, move the density slider to 128 and
  release it.
\<close>

theorem request_parameters_in_range_witness:
  "appReach sampleApp [(64, 15), (128, 15)] \<and>
   gridSize sampleApp = 64 \<and> tempGridSize sampleApp = 128 \<and> maxColors sampleApp = 15 \<and>
   16 \<le> gridSize sampleApp \<and> gridSize sampleApp \<le> 128 \<and>
   5 \<le> maxColors sampleApp \<and> maxColors sampleApp \<le> 30 \<and>
   list_all (\<lambda>(g, c). 16 \<le> g \<and> g \<le> 128 \<and> 5 \<le> c \<and> c \<le> 30) [(64, 15), (128::nat, 15::nat)]"
proof -
  have v: "gridSize sampleApp = 64" "tempGridSize sampleApp = 128" "maxColors sampleApp = 15"
    by (simp_all add: sampleApp_def sourceImage_def handleUpload_def initialApp_def
        handlePixelate_begin_def handlePixelate_settle_def tryBlock_def sample_build)
  from request_parameters_in_range[OF sampleApp_reach]
  have "\<forall>(g, c) \<in> set [(64, 15), (128::nat, 15::nat)]. 16 \<le> g \<and> g \<le> 128 \<and> 5 \<le> c \<and> c \<le> 30"
    and "16 \<le> gridSize sampleApp \<and> gridSize sampleApp \<le> 128 \<and>
         5 \<le> maxColors sampleApp \<and> maxColors sampleApp \<le> 30"
    by blast+
  then have "list_all (\<lambda>(g, c). 16 \<le> g \<and> g \<le> 128 \<and> 5 \<le> c \<and> c \<le> 30) [(64, 15), (128::nat, 15::nat)]"
    and "16 \<le> gridSize sampleApp \<and> gridSize sampleApp \<le> 128 \<and>
         5 \<le> maxColors sampleApp \<and> maxColors sampleApp \<le> 30"
    by (simp_all only: list_all_iff)
  with v sampleApp_reach show ?thesis by blast
qed


section \<open>\<open>handlePixelate\<close> as a state transformer\<close>

lemma settle_ok:
  "tryBlock out = Inr r \<Longrightarrow>
     handlePixelate_settle st g c out =
       st\<lparr> pixelResult := Some r, gridSize := g, tempGridSize := g, maxColors := c,
           tempMaxColors := c, step := 3, isLoading := False \<rparr>"
  by (simp add: handlePixelate_settle_def)

lemma settle_error:
  "tryBlock out = Inl e \<Longrightarrow>
     handlePixelate_settle st g c out = st\<lparr> error := Some (errorMessage st e), isLoading := False \<rparr>"
  by (simp add: handlePixelate_settle_def)

lemma handlePixelate_ok:
  "sourceImage st \<noteq> [] \<Longrightarrow> tryBlock out = Inr r \<Longrightarrow>
     handlePixelate st g c out =
       st\<lparr> pixelResult := Some r, gridSize := g, tempGridSize := g, maxColors := c,
           tempMaxColors := c, step := 3, isLoading := False, error := None \<rparr>"
  by (simp add: handlePixelate_def handlePixelate_begin_def settle_ok)

lemma handlePixelate_error:
  "sourceImage st \<noteq> [] \<Longrightarrow> tryBlock out = Inl e \<Longrightarrow>
     handlePixelate st g c out = st\<lparr> error := Some (errorMessage st e), isLoading := False \<rparr>"
  by (cases e) (simp_all add: handlePixelate_def handlePixelate_begin_def settle_error errorMessage_def)

lemma three_channels:
  assumes "3 \<le> length (xs :: int list)"
  shows "\<exists>r g b rest. xs = r # g # b # rest"
proof -
  from assms obtain r ys where a: "xs = r # ys" "2 \<le> length ys"
    by (cases xs) simp_all
  then obtain g zs where b: "ys = g # zs" "1 \<le> length zs"
    by (cases ys) simp_all
  then obtain b' rest where c: "zs = b' # rest"
    by (cases zs) simp_all
  from a b c show ?thesis by simp
qed

lemma paletteLoop_total:
  "\<forall>p \<in> set ps. 3 \<le> length (rgb p) \<Longrightarrow> \<exists>m' l'. paletteLoop ps m l = Inr (m', l')"
proof (induction ps arbitrary: m l)
  case Nil
  then show ?case by simp
next
  case (Cons p ps)
  then have "3 \<le> length (rgb p)" by simp
  from three_channels[OF this] obtain r g b rest where "rgb p = r # g # b # rest"
    by blast
  then have hex: "entryHex p = Inr (rgbToHex r g b)" by (simp add: entryHex_def)
  from Cons.prems have "\<forall>p \<in> set ps. 3 \<le> length (rgb p)" by simp
  from Cons.IH[OF this] hex show ?case by simp
qed

lemma buildPixelResult_total:
  assumes "grid_data d \<noteq> None"
    and "\<forall>ps. used_palette d = Some ps \<longrightarrow> (\<forall>p \<in> set ps. 3 \<le> length (rgb p))"
  shows "\<exists>r. buildPixelResult d = Inr r"
proof -
  have "\<exists>m l. buildPalette d = Inr (m, l)"
  proof (cases "used_palette d")
    case None
    then show ?thesis by (simp add: buildPalette_def)
  next
    case (Some ps)
    with assms(2) have "\<forall>p \<in> set ps. 3 \<le> length (rgb p)" by simp
    from paletteLoop_total[OF this, of Map.empty "[]"] Some show ?thesis
      by (simp add: buildPalette_def)
  qed
  then obtain m l where "buildPalette d = Inr (m, l)" by blast
  moreover from assms(1) obtain rows where "grid_data d = Some rows" by blast
  ultimately show ?thesis by (simp add: buildPixelResult_def)
qed

text \<open>
  Claim C5. What \<open>handlePixelate\<close> stores as \<open>pixelResult\<close> is a function of the response
  body alone: two runs on the same body, from any two states and with any parameters,
  store the same result. \<open>rgbToHex\<close> is the hash sign followed by the two-digit hex of each
  channel.
\<close>

theorem handlePixelate_deterministic:
  assumes "sourceImage s1 \<noteq> []" and "sourceImage s2 \<noteq> []"
    and "buildPixelResult d = Inr r"
  shows "pixelResult (handlePixelate s1 g1 c1 (Ok d)) = Some r \<and>
         pixelResult (handlePixelate s2 g2 c2 (Ok d)) = Some r \<and>
         pixelResult (handlePixelate_settle s1 g1 c1 (Ok d)) =
           pixelResult (handlePixelate_settle s2 g2 c2 (Ok d)) \<and>
         rgbToHex x y z = CHR ''#'' # channelHex x @ channelHex y @ channelHex z"
proof -
  from assms(3) have t: "tryBlock (Ok d) = Inr r" by (simp add: tryBlock_def)
  show ?thesis
    by (simp add: handlePixelate_ok[OF assms(1) t] handlePixelate_ok[OF assms(2) t]
        settle_ok[OF t] rgbToHex_def)
qed

text \<open>
  Claim C5, witness: the sample response handled from two different states with different
  parameters.
\<close>

theorem handlePixelate_deterministic_witness:
  "sourceImage uploadedApp \<noteq> [] \<and> sourceImage sampleApp \<noteq> [] \<and>
   buildPixelResult sampleResponse = Inr sampleResult \<and>
   pixelResult (handlePixelate uploadedApp 64 15 (Ok sampleResponse)) = Some sampleResult \<and>
   pixelResult (handlePixelate sampleApp 24 5 (Ok sampleResponse)) = Some sampleResult"
proof -
  have h1: "sourceImage uploadedApp \<noteq> []"
    by (simp add: uploadedApp_def sourceImage_def handleUpload_def initialApp_def)
  have h2: "sourceImage sampleApp \<noteq> []"
    by (simp add: sampleApp_def sourceImage_def handleUpload_def initialApp_def
        handlePixelate_begin_def handlePixelate_settle_def tryBlock_def sample_build)
  from handlePixelate_deterministic[OF h1 h2 sample_build, of 64 15 24 5] h1 h2 sample_build
  show ?thesis by blast
qed

text \<open>
  Claim C7. When an awaited call rejects or the response is not \<open>ok\<close>, \<open>handlePixelate\<close>
  sets the message of the \<open>catch\<close> block and leaves \<open>pixelResult\<close>, \<open>step\<close>, \<open>gridSize\<close> and
  \<open>maxColors\<close> as they were; this also holds for the part after the \<open>await\<close> run on any
  state. A response that is \<open>ok\<close>, with \<open>grid_data\<close> present and three channels in every
  palette entry, clears the error and replaces \<open>pixelResult\<close>.
\<close>

theorem handlePixelate_atomic:
  assumes "sourceImage st \<noteq> []"
  shows "(\<forall>e. error (handlePixelate st g c (Rejected e)) = Some (errorMessage st e) \<and>
              pixelResult (handlePixelate st g c (Rejected e)) = pixelResult st \<and>
              step (handlePixelate st g c (Rejected e)) = step st \<and>
              gridSize (handlePixelate st g c (Rejected e)) = gridSize st \<and>
              maxColors (handlePixelate st g c (Rejected e)) = maxColors st) \<and>
         (\<forall>status statusText.
              error (handlePixelate st g c (NotOk status statusText))
                = Some (StatusFailure status statusText) \<and>
              pixelResult (handlePixelate st g c (NotOk status statusText)) = pixelResult st \<and>
              step (handlePixelate st g c (NotOk status statusText)) = step st \<and>
              gridSize (handlePixelate st g c (NotOk status statusText)) = gridSize st \<and>
              maxColors (handlePixelate st g c (NotOk status statusText)) = maxColors st) \<and>
         (\<forall>d r. buildPixelResult d = Inr r \<longrightarrow>
              error (handlePixelate st g c (Ok d)) = None \<and>
              pixelResult (handlePixelate st g c (Ok d)) = Some r) \<and>
         (\<forall>d. grid_data d \<noteq> None \<and>
              (\<forall>ps. used_palette d = Some ps \<longrightarrow> (\<forall>p \<in> set ps. 3 \<le> length (rgb p)))
              \<longrightarrow> (\<exists>r. buildPixelResult d = Inr r \<and>
                     error (handlePixelate st g c (Ok d)) = None \<and>
                     pixelResult (handlePixelate st g c (Ok d)) = Some r)) \<and>
         (\<forall>u out e. tryBlock out = Inl e \<longrightarrow>
              pixelResult (handlePixelate_settle u g c out) = pixelResult u \<and>
              step (handlePixelate_settle u g c out) = step u \<and>
              gridSize (handlePixelate_settle u g c out) = gridSize u \<and>
              maxColors (handlePixelate_settle u g c out) = maxColors u)"
proof -
  have a: "tryBlock (Rejected e) = Inl e" for e by (simp add: tryBlock_def)
  have b: "tryBlock (NotOk status statusText) = Inl (Err (StatusFailure status statusText))"
    for status statusText by (simp add: tryBlock_def)
  have c: "tryBlock (Ok d) = buildPixelResult d" for d by (simp add: tryBlock_def)
  have ok: "error (handlePixelate st g c (Ok d)) = None \<and>
            pixelResult (handlePixelate st g c (Ok d)) = Some r"
    if "buildPixelResult d = Inr r" for d r
    using that by (simp add: handlePixelate_ok[OF assms] c)
  have total: "\<exists>r. buildPixelResult d = Inr r \<and>
            error (handlePixelate st g c (Ok d)) = None \<and>
            pixelResult (handlePixelate st g c (Ok d)) = Some r"
    if "grid_data d \<noteq> None"
      "\<forall>ps. used_palette d = Some ps \<longrightarrow> (\<forall>p \<in> set ps. 3 \<le> length (rgb p))" for d
  proof -
    from buildPixelResult_total[OF that] obtain r where "buildPixelResult d = Inr r" ..
    with ok[OF this] show ?thesis by blast
  qed
  have rej: "error (handlePixelate st g c (Rejected e)) = Some (errorMessage st e) \<and>
              pixelResult (handlePixelate st g c (Rejected e)) = pixelResult st \<and>
              step (handlePixelate st g c (Rejected e)) = step st \<and>
              gridSize (handlePixelate st g c (Rejected e)) = gridSize st \<and>
              maxColors (handlePixelate st g c (Rejected e)) = maxColors st" for e
    by (simp add: handlePixelate_error[OF assms a])
  have notok: "error (handlePixelate st g c (NotOk status statusText))
                = Some (StatusFailure status statusText) \<and>
              pixelResult (handlePixelate st g c (NotOk status statusText)) = pixelResult st \<and>
              step (handlePixelate st g c (NotOk status statusText)) = step st \<and>
              gridSize (handlePixelate st g c (NotOk status statusText)) = gridSize st \<and>
              maxColors (handlePixelate st g c (NotOk status statusText)) = maxColors st"
    for status statusText
    by (simp add: handlePixelate_error[OF assms b] errorMessage_def)
  have settle: "pixelResult (handlePixelate_settle u g c out) = pixelResult u \<and>
              step (handlePixelate_settle u g c out) = step u \<and>
              gridSize (handlePixelate_settle u g c out) = gridSize u \<and>
              maxColors (handlePixelate_settle u g c out) = maxColors u"
    if "tryBlock out = Inl e" for u out e
    using that by (simp add: settle_error)
  from rej notok ok total settle show ?thesis by blast
qed

text \<open>
  Claim C7, witness: a state that shows a result receives a 500, then a network failure,
  then a good response.
\<close>

theorem handlePixelate_atomic_witness:
  "sourceImage sampleApp \<noteq> [] \<and>
   pixelResult sampleApp = Some sampleResult \<and> step sampleApp = 3 \<and>
   error (handlePixelate sampleApp 128 15 (NotOk 500 ''Internal Server Error''))
     = Some (StatusFailure 500 ''Internal Server Error'') \<and>
   pixelResult (handlePixelate sampleApp 128 15 (NotOk 500 ''Internal Server Error''))
     = Some sampleResult \<and>
   step (handlePixelate sampleApp 128 15 (NotOk 500 ''Internal Server Error'')) = 3 \<and>
   gridSize (handlePixelate sampleApp 128 15 (NotOk 500 ''Internal Server Error'')) = 64 \<and>
   error (handlePixelate sampleApp 128 15 (Rejected (TypeErr (Literal ''Failed to fetch''))))
     = Some (ConnectFailure ''/api'') \<and>
   buildPixelResult twinResponse = Inr twinResult \<and>
   error (handlePixelate sampleApp 128 15 (Ok twinResponse)) = None \<and>
   pixelResult (handlePixelate sampleApp 128 15 (Ok twinResponse)) = Some twinResult"
proof -
  have v: "sourceImage sampleApp \<noteq> []" "pixelResult sampleApp = Some sampleResult"
    "step sampleApp = 3" "gridSize sampleApp = 64" "apiUrl sampleApp = ''/api''"
    by (simp_all add: sampleApp_def sourceImage_def handleUpload_def initialApp_def
        handlePixelate_begin_def handlePixelate_settle_def tryBlock_def sample_build)
  have tw: "buildPixelResult twinResponse = Inr twinResult"
    by (simp add: twinResponse_def twinResult_def eval_build eval_hex)
  note t = handlePixelate_atomic[OF v(1), of 128 15]
  from t v have a:
    "error (handlePixelate sampleApp 128 15 (NotOk 500 ''Internal Server Error''))
       = Some (StatusFailure 500 ''Internal Server Error'')"
    "pixelResult (handlePixelate sampleApp 128 15 (NotOk 500 ''Internal Server Error''))
       = Some sampleResult"
    "step (handlePixelate sampleApp 128 15 (NotOk 500 ''Internal Server Error'')) = 3"
    "gridSize (handlePixelate sampleApp 128 15 (NotOk 500 ''Internal Server Error'')) = 64"
    by simp_all
  from t have "error (handlePixelate sampleApp 128 15 (Rejected (TypeErr (Literal ''Failed to fetch''))))
     = Some (errorMessage sampleApp (TypeErr (Literal ''Failed to fetch'')))" by blast
  with v have b: "error (handlePixelate sampleApp 128 15 (Rejected (TypeErr (Literal ''Failed to fetch''))))
     = Some (ConnectFailure ''/api'')" by (simp add: errorMessage_def)
  from t tw have c: "error (handlePixelate sampleApp 128 15 (Ok twinResponse)) = None"
    "pixelResult (handlePixelate sampleApp 128 15 (Ok twinResponse)) = Some twinResult"
    by blast+
  from v a b tw c show ?thesis by blast
qed


section \<open>The uploader\<close>

text \<open>
  Claim C10. A drop calls \<open>onImageSelect\<close> exactly when it carries a file and the MIME type
  of the first file starts with \<open>image/\<close>, and then with that file only. A file chosen
  through the input is passed on whatever its type, and the input's value is emptied
  afterwards, which leaves the input without a selected file.
\<close>

theorem uploader_filters_drop_only:
  "fst (handleDrop dragging dropped) = False \<and>
   (snd (handleDrop dragging dropped) \<noteq> [] \<longleftrightarrow>
      (\<exists>f rest. dropped = Some (f # rest) \<and> prefix ''image/'' (file_type f))) \<and>
   (\<forall>f rest. dropped = Some (f # rest) \<and> prefix ''image/'' (file_type f)
      \<longrightarrow> snd (handleDrop dragging dropped) = [f]) \<and>
   (\<forall>f rest. files target = Some (f # rest) \<longrightarrow> snd (handleFileSelect target) = [f]) \<and>
   (files target = None \<or> files target = Some [] \<longrightarrow> snd (handleFileSelect target) = []) \<and>
   input_value (fst (handleFileSelect target)) = [] \<and>
   files (fst (handleFileSelect target)) = Some []"
  by (auto simp: handleDrop_def handleFileSelect_def split: option.splits list.splits)

text \<open>
  Claim C10, witness: an image followed by a document is accepted by the drop, the reverse
  order is not, and the document is accepted through the input.
\<close>

theorem uploader_filters_drop_only_witness:
  "prefix ''image/'' (file_type pngFile) \<and>
   snd (handleDrop True (Some [pngFile, pdfFile])) = [pngFile] \<and>
   \<not> prefix ''image/'' (file_type pdfFile) \<and>
   snd (handleDrop True (Some [pdfFile, pngFile])) = [] \<and>
   snd (handleFileSelect \<lparr> files = Some [pdfFile], input_value = ''C:/fakepath/notes.pdf'' \<rparr>) = [pdfFile] \<and>
   input_value (fst (handleFileSelect \<lparr> files = Some [pdfFile], input_value = ''C:/fakepath/notes.pdf'' \<rparr>)) = []"
proof -
  let ?t = "\<lparr> files = Some [pdfFile], input_value = ''C:/fakepath/notes.pdf'' \<rparr>"
  have p1: "prefix ''image/'' (file_type pngFile)" by (simp add: pngFile_def)
  have p2: "\<not> prefix ''image/'' (file_type pdfFile)" by (simp add: pdfFile_def)
  have f: "files ?t = Some (pdfFile # [])" by simp
  note t1 = uploader_filters_drop_only[of True "Some [pngFile, pdfFile]" ?t]
  note t2 = uploader_filters_drop_only[of True "Some [pdfFile, pngFile]" ?t]
  from t1 p1 have a: "snd (handleDrop True (Some [pngFile, pdfFile])) = [pngFile]" by blast
  from t2 p2 have b: "snd (handleDrop True (Some [pdfFile, pngFile])) = []" by auto
  from t1 f have c: "snd (handleFileSelect ?t) = [pdfFile]" by blast
  from t1 have d: "input_value (fst (handleFileSelect ?t)) = []" by blast
  from p1 a p2 b c d show ?thesis by blast
qed

end
